theory Spec2Isabelle
  imports Main "HOL-Library.List_Lexorder" "HOL-Library.Char_ord"
begin

section \<open>JavaScript values and strings\<close>

text \<open>
  The crime-map script is JavaScript. Its strings are modelled as \<^typ>\<open>string\<close> over
  ASCII text: case mapping changes the letters A-Z and a-z only, and white space is the
  ASCII white space that \<open>trim\<close> and the regular expression class \<open>\s\<close> remove.
  A numeric field read from the JSON documents is \<open>undefined\<close> when absent, \<open>null\<close>,
  or an integer.
\<close>

datatype jsval = Undefined | Null | Num int

text \<open>Truthiness as \<open>||\<close> and \<open>!\<close> see it: \<open>undefined\<close>, \<open>null\<close> and \<open>0\<close> are falsy.\<close>

fun truthy :: "jsval \<Rightarrow> bool" where
  "truthy Undefined = False"
| "truthy Null = False"
| "truthy (Num n) = (n \<noteq> 0)"

definition js_or :: "jsval \<Rightarrow> jsval \<Rightarrow> jsval" where
  "js_or a b = (if truthy a then a else b)"

text \<open>
  The relational comparison \<open>v <= n\<close> against a number literal: \<open>undefined\<close> converts to
  NaN, and every comparison with NaN is false; \<open>null\<close> converts to \<open>0\<close>.
\<close>

fun js_le :: "jsval \<Rightarrow> int \<Rightarrow> bool" where
  "js_le Undefined n = False"
| "js_le Null n = (0 \<le> n)"
| "js_le (Num m) n = (m \<le> n)"

definition isWhiteSpace :: "char \<Rightarrow> bool" where
  "isWhiteSpace c = (c = CHR 0x09 \<or> c = CHR 0x0A \<or> c = CHR 0x0B \<or> c = CHR 0x0C
     \<or> c = CHR 0x0D \<or> c = CHR 0x20)"

definition trim :: "string \<Rightarrow> string" where
  "trim s = rev (dropWhile isWhiteSpace (rev (dropWhile isWhiteSpace s)))"

definition lowerChar :: "char \<Rightarrow> char" where
  "lowerChar c =
     (case map_of (zip ''ABCDEFGHIJKLMNOPQRSTUVWXYZ'' ''abcdefghijklmnopqrstuvwxyz'') c of
        Some d \<Rightarrow> d | None \<Rightarrow> c)"

definition upperChar :: "char \<Rightarrow> char" where
  "upperChar c =
     (case map_of (zip ''abcdefghijklmnopqrstuvwxyz'' ''ABCDEFGHIJKLMNOPQRSTUVWXYZ'') c of
        Some d \<Rightarrow> d | None \<Rightarrow> c)"

definition toLowerCase :: "string \<Rightarrow> string" where
  "toLowerCase s = map lowerChar s"

definition toUpperCase :: "string \<Rightarrow> string" where
  "toUpperCase s = map upperChar s"

definition startsWith :: "string \<Rightarrow> string \<Rightarrow> bool" where
  "startsWith s q = (take (length q) s = q)"

fun includes_str :: "string \<Rightarrow> string \<Rightarrow> bool" where
  "includes_str [] q = (q = [])"
| "includes_str (c # cs) q = (startsWith (c # cs) q \<or> includes_str cs q)"

text \<open>\<open>s.replace(pat, rep)\<close> with a string pattern: the first occurrence only.\<close>

fun replace_first :: "string \<Rightarrow> string \<Rightarrow> string \<Rightarrow> string" where
  "replace_first pat rep [] = (if pat = [] then rep else [])"
| "replace_first pat rep (c # cs) =
     (if startsWith (c # cs) pat then rep @ drop (length pat) (c # cs)
      else c # replace_first pat rep cs)"

text \<open>
  \<open>Array.prototype.sort(cmp)\<close> is stable, and for a consistent comparator its result
  is the stable ordering by \<open>cmp\<close>: insertion from the right, an element going in front
  of the first later element it does not exceed.
\<close>

fun insert_cmp :: "('a \<Rightarrow> 'a \<Rightarrow> int) \<Rightarrow> 'a \<Rightarrow> 'a list \<Rightarrow> 'a list" where
  "insert_cmp cmp x [] = [x]"
| "insert_cmp cmp x (y # ys) =
     (if cmp x y \<le> 0 then x # y # ys else y # insert_cmp cmp x ys)"

definition sort_cmp :: "('a \<Rightarrow> 'a \<Rightarrow> int) \<Rightarrow> 'a list \<Rightarrow> 'a list" where
  "sort_cmp cmp xs = foldr (insert_cmp cmp) xs []"

section \<open>Safety level\<close>

text \<open>
  \<^verbatim>\<open>
  function getSafetyLevel(score) {
    if (score <= 3) return 'Very Safe';
    if (score <= 5) return 'Safe';
    if (score <= 7) return 'Moderate';
    if (score <= 8) return 'Caution';
    return 'High Risk';
  }
  \<close>
\<close>

definition getSafetyLevel :: "jsval \<Rightarrow> string" where
  "getSafetyLevel score =
     (if js_le score 3 then ''Very Safe''
      else if js_le score 5 then ''Safe''
      else if js_le score 7 then ''Moderate''
      else if js_le score 8 then ''Caution''
      else ''High Risk'')"

section \<open>Objects\<close>

text \<open>
  A JavaScript object used as a dictionary is an association list in insertion order:
  assigning to a key that is present keeps its position, assigning to a new key appends.
  \<open>Object.entries\<close> and \<open>Object.keys\<close> enumerate the keys that are canonical array
  indices first, in ascending numeric order, and the other keys after them in insertion
  order. The keys stand for data labels; names inherited from \<open>Object.prototype\<close> are
  outside the model.
\<close>

type_synonym 'v obj = "(string \<times> 'v) list"

fun obj_set :: "string \<Rightarrow> 'v \<Rightarrow> 'v obj \<Rightarrow> 'v obj" where
  "obj_set k v [] = [(k, v)]"
| "obj_set k v (p # ps) = (if fst p = k then (k, v) # ps else p # obj_set k v ps)"

definition obj_get :: "'v obj \<Rightarrow> string \<Rightarrow> 'v option" where
  "obj_get ob k = map_of ob k"

definition isDigit :: "char \<Rightarrow> bool" where
  "isDigit c = (c \<in> set ''0123456789'')"

definition digitVal :: "char \<Rightarrow> int" where
  "digitVal c =
     (case map_of (zip ''0123456789'' [0, 1, 2, 3, 4, 5, 6, 7, 8, 9]) c of
        Some d \<Rightarrow> d | None \<Rightarrow> 0)"

definition numericValue :: "string \<Rightarrow> int" where
  "numericValue k = foldl (\<lambda>n c. 10 * n + digitVal c) 0 k"

definition isArrayIndex :: "string \<Rightarrow> bool" where
  "isArrayIndex k =
     (k \<noteq> [] \<and> list_all isDigit k \<and> (k = ''0'' \<or> hd k \<noteq> CHR ''0'')
      \<and> numericValue k < 4294967295)"

definition Object_entries :: "'v obj \<Rightarrow> (string \<times> 'v) list" where
  "Object_entries ob =
     sort_key (\<lambda>p. numericValue (fst p)) (filter (\<lambda>p. isArrayIndex (fst p)) ob)
     @ filter (\<lambda>p. \<not> isArrayIndex (fst p)) ob"

definition Object_keys :: "'v obj \<Rightarrow> string list" where
  "Object_keys ob = map fst (Object_entries ob)"

section \<open>The data model\<close>

text \<open>
  An area (a ward or a precinct) and a borough as the JSON documents give them. A field
  that may be absent is an option or \<^const>\<open>Undefined\<close>. A borough of the first city
  lists its areas under \<open>wards\<close>, one of the second under \<open>precincts\<close>; a record made
  from map-feature properties carries \<open>total_crimes\<close>, \<open>safety_score\<close>,
  \<open>safety_level\<close> and \<open>crime_breakdown\<close> instead. The elements of an area list are
  objects, and counts are integers.
\<close>

record area =
  a_name :: "string option"
  a_totalCrimes :: jsval
  a_crimeTypes :: "int obj option"

record borough =
  b_name :: "string option"
  b_score :: jsval
  b_safety_score :: jsval
  b_totalCrimes :: jsval
  b_total_crimes :: jsval
  b_safety_level :: "string option"
  b_crime_breakdown :: "int obj option"
  b_wards :: "area list option"
  b_precincts :: "area list option"

datatype city = london | nyc

text \<open>\<open>cityConfigs[city].areaType\<close> names the field read by \<open>boroughData[areaType]\<close>.\<close>

fun areaType :: "city \<Rightarrow> borough \<Rightarrow> area list option" where
  "areaType london b = b_wards b"
| "areaType nyc b = b_precincts b"

fun areaTypeLabel :: "city \<Rightarrow> string" where
  "areaTypeLabel london = ''Ward''"
| "areaTypeLabel nyc = ''Precinct''"

text \<open>\<open>!x.name\<close>: a missing name and the empty string are both falsy.\<close>

fun falsy_name :: "string option \<Rightarrow> bool" where
  "falsy_name None = True"
| "falsy_name (Some n) = (n = [])"

record entry =
  e_type :: string
  e_name :: string
  e_searchName :: string
  e_searchTerms :: "string list option"
  e_borough :: "string option"
  e_data :: borough
  e_score :: jsval
  e_areaData :: "area option"

text \<open>The three globals of the script that the search depends on.\<close>

record app_state =
  currentCity :: city
  crimeData :: "borough obj"
  searchIndex :: "entry list"



section \<open>Crime types\<close>

definition crimeTypeMap :: "string obj" where
  "crimeTypeMap =
    [(''VIOLENCEAGAINSTTHEPERSON'', ''Violence Against Person''),
     (''VEHICLEOFFENCES'', ''Vehicle Offences''),
     (''VEHICLE OFFENCES'', ''Vehicle Offences''),
     (''BURGLARY'', ''Burglary''),
     (''THEFT'', ''Theft''),
     (''ROBBERY'', ''Robbery''),
     (''DRUGOFFENCES'', ''Drug Offences''),
     (''DRUG OFFENCES'', ''Drug Offences''),
     (''PUBLICORDEROFFENCES'', ''Public Order''),
     (''PUBLIC ORDER'', ''Public Order''),
     (''CRIMINALOFFENCES'', ''Criminal Offences''),
     (''CRIMINAL DAMAGE'', ''Criminal Damage''),
     (''FRAUD'', ''Fraud''),
     (''SEXUALOFFENCES'', ''Sexual Offences''),
     (''SEXUAL OFFENCES'', ''Sexual Offences''),
     (''ASSAULT'', ''Assault''),
     (''WEAPONS OFFENCES'', ''Weapons Offences''),
     (''HARASSMENT'', ''Harassment''),
     (''TRESPASSING'', ''Trespassing''),
     (''HOMICIDE'', ''Homicide''),
     (''ARSON'', ''Arson''),
     (''KIDNAPPING'', ''Kidnapping''),
     (''GAMBLING'', ''Gambling''),
     (''ALCOHOL OFFENCES'', ''Alcohol Offences''),
     (''REGULATORY VIOLATIONS'', ''Regulatory Violations''),
     (''CUSTODY OFFENCES'', ''Custody Offences''),
     (''MISCELLANEOUS'', ''Miscellaneous''),
     (''OTHER'', ''Other'')]"

text \<open>
  \<^verbatim>\<open>
  const upperType = type.toUpperCase().replace(/\s+/g, '');
  return crimeTypeMap[upperType] || crimeTypeMap[type.toUpperCase()]
    || type.charAt(0).toUpperCase() + type.slice(1).toLowerCase();
  \<close>
  Every value of the table is a non-empty string, so \<open>||\<close> passes a table hit through.
\<close>

definition formatCrimeType :: "string \<Rightarrow> string" where
  "formatCrimeType type =
     (let upperType = filter (\<lambda>c. \<not> isWhiteSpace c) (toUpperCase type) in
      case obj_get crimeTypeMap upperType of
        Some v \<Rightarrow> v
      | None \<Rightarrow>
          (case obj_get crimeTypeMap (toUpperCase type) of
             Some v \<Rightarrow> v
           | None \<Rightarrow> toUpperCase (take 1 type) @ toLowerCase (drop 1 type)))"

text \<open>
  \<^verbatim>\<open>
  Object.entries(area.crimeTypes || {}).forEach(([type, count]) => {
    allCrimes[type] = (allCrimes[type] || 0) + count;
  });
  \<close>
\<close>

definition addCrime :: "string \<times> int \<Rightarrow> int obj \<Rightarrow> int obj" where
  "addCrime tc allCrimes =
     obj_set (fst tc)
       ((case obj_get allCrimes (fst tc) of
           None \<Rightarrow> 0
         | Some v \<Rightarrow> if v = 0 then 0 else v) + snd tc)
       allCrimes"

definition addArea :: "area \<Rightarrow> int obj \<Rightarrow> int obj" where
  "addArea a allCrimes =
     fold addCrime
       (Object_entries (case a_crimeTypes a of None \<Rightarrow> [] | Some ct \<Rightarrow> ct)) allCrimes"

text \<open>
  The dictionary \<open>allCrimes\<close> of \<open>getTopCrimeType\<close>: the \<open>crime_breakdown\<close> of the
  record itself in the second city when it has one, and otherwise the counts of the
  areas under \<open>boroughData[areaType] || []\<close>, summed per label as the labels are written.
\<close>

definition allCrimes :: "city \<Rightarrow> borough \<Rightarrow> int obj" where
  "allCrimes c boroughData =
     (if c = nyc \<and> b_crime_breakdown boroughData \<noteq> None
      then the (b_crime_breakdown boroughData)
      else fold addArea
             (case areaType c boroughData of None \<Rightarrow> [] | Some areas \<Rightarrow> areas) [])"

text \<open>
  \<^verbatim>\<open>
  const topCrime = Object.entries(allCrimes).sort((a, b) => b[1] - a[1])[0];
  return topCrime ? formatCrimeType(topCrime[0]) : 'N/A';
  \<close>
\<close>

definition getTopCrimeType :: "city \<Rightarrow> borough \<Rightarrow> string" where
  "getTopCrimeType c boroughData =
     (case sort_cmp (\<lambda>a b. snd b - snd a) (Object_entries (allCrimes c boroughData)) of
        [] \<Rightarrow> ''N/A''
      | topCrime # _ \<Rightarrow> formatCrimeType (fst topCrime))"

section \<open>The search index\<close>

text \<open>
  The score of an index entry:
  \<^verbatim>\<open>boroughData.score || boroughData.safety_score || boroughData.totalCrimes || 0\<close>
\<close>

definition entryScore :: "borough \<Rightarrow> jsval" where
  "entryScore boroughData =
     js_or (js_or (js_or (b_score boroughData) (b_safety_score boroughData))
       (b_totalCrimes boroughData)) (Num 0)"

definition boroughEntry :: "string \<Rightarrow> borough \<Rightarrow> entry" where
  "boroughEntry name boroughData =
     \<lparr>e_type = ''borough'', e_name = name, e_searchName = toLowerCase name,
      e_searchTerms = None, e_borough = None, e_data = boroughData,
      e_score = entryScore boroughData, e_areaData = None\<rparr>"

text \<open>
  \<^verbatim>\<open>
  let searchTerms = [area.name.toLowerCase()];
  if (currentCity === 'nyc' && area.name.includes('Precinct ')) {
    const precinctNum = area.name.replace('Precinct ', '');
    searchTerms.push(precinctNum);
    searchTerms.push(`pct ${precinctNum}`);
    searchTerms.push(`precinct ${precinctNum}`);
  }
  \<close>
\<close>

definition searchTerms :: "city \<Rightarrow> string \<Rightarrow> string list" where
  "searchTerms c name =
     (if c = nyc \<and> includes_str name ''Precinct ''
      then (let precinctNum = replace_first ''Precinct '' [] name in
            [toLowerCase name, precinctNum, ''pct '' @ precinctNum,
             ''precinct '' @ precinctNum])
      else [toLowerCase name])"

definition areaEntry :: "city \<Rightarrow> string \<Rightarrow> borough \<Rightarrow> string \<Rightarrow> area \<Rightarrow> entry" where
  "areaEntry c boroughName boroughData name a =
     \<lparr>e_type = toLowerCase (areaTypeLabel c), e_name = name,
      e_searchName = toLowerCase name, e_searchTerms = Some (searchTerms c name),
      e_borough = Some boroughName, e_data = boroughData,
      e_score = entryScore boroughData, e_areaData = Some a\<rparr>"

text \<open>The body of the inner \<open>forEach\<close>: an area with no name is skipped.\<close>

definition pushArea :: "city \<Rightarrow> string \<Rightarrow> borough \<Rightarrow> area \<Rightarrow> entry list \<Rightarrow> entry list" where
  "pushArea c boroughName boroughData a idx =
     (if falsy_name (a_name a) then idx
      else idx @ [areaEntry c boroughName boroughData (the (a_name a)) a])"

text \<open>
  The body of the outer \<open>forEach\<close>: a borough with no name is skipped with its areas;
  otherwise its entry is pushed, and then one entry for each of its named areas.
\<close>

definition pushBorough :: "city \<Rightarrow> string \<times> borough \<Rightarrow> entry list \<Rightarrow> entry list" where
  "pushBorough c kv idx =
     (let boroughData = snd kv in
      if falsy_name (b_name boroughData) then idx
      else
        (let name = the (b_name boroughData);
             idx1 = idx @ [boroughEntry name boroughData]
         in case areaType c boroughData of
              None \<Rightarrow> idx1
            | Some areas \<Rightarrow> fold (pushArea c name boroughData) areas idx1))"

text \<open>
  \<open>buildSearchIndex\<close> empties the global index, returns at once when the dataset has
  no key, and otherwise walks \<open>Object.entries(crimeData)\<close>.
\<close>

definition buildSearchIndex :: "app_state \<Rightarrow> app_state" where
  "buildSearchIndex st =
     (let st1 = st\<lparr>searchIndex := []\<rparr> in
      if length (Object_keys (crimeData st1)) = 0 then st1
      else st1\<lparr>searchIndex :=
             fold (pushBorough (currentCity st1)) (Object_entries (crimeData st1))
               (searchIndex st1)\<rparr>)"

section \<open>The query\<close>

text \<open>
  The filter of \<open>handleSearch\<close>: the search name contains the query, or the entry has
  search terms and one of them does.
\<close>

definition matches :: "string \<Rightarrow> entry \<Rightarrow> bool" where
  "matches query item =
     (if includes_str (e_searchName item) query then True
      else case e_searchTerms item of
             Some terms \<Rightarrow> list_ex (\<lambda>t. includes_str t query) terms
           | None \<Rightarrow> False)"

definition exactRank :: "string \<Rightarrow> entry \<Rightarrow> int" where
  "exactRank query a =
     (if startsWith (e_searchName a) query
         \<or> (case e_searchTerms a of
               Some terms \<Rightarrow> list_ex (\<lambda>t. startsWith t query) terms
             | None \<Rightarrow> False)
      then 0 else 1)"

definition typeRank :: "entry \<Rightarrow> int" where
  "typeRank a = (if e_type a = ''borough'' then 0 else 1)"

text \<open>
  The comparator of the sort. \<open>localeCompare\<close> is the collation of the browser's
  locale; it is the parameter \<open>lc\<close>.
\<close>

definition compareEntries ::
  "(string \<Rightarrow> string \<Rightarrow> int) \<Rightarrow> string \<Rightarrow> entry \<Rightarrow> entry \<Rightarrow> int" where
  "compareEntries lc query a b =
     (let aExact = exactRank query a; bExact = exactRank query b in
      if aExact \<noteq> bExact then aExact - bExact
      else
        (let aType = typeRank a; bType = typeRank b in
         if aType \<noteq> bType then aType - bType
         else lc (e_name a) (e_name b)))"

text \<open>
  What \<open>handleSearch\<close> leaves in the results panel: the panel hidden, the message
  that nothing was found for the text typed, or the list of results.
\<close>

datatype search_panel = Hidden | NoResults string | Results "entry list"

definition handleSearch ::
  "(string \<Rightarrow> string \<Rightarrow> int) \<Rightarrow> app_state \<Rightarrow> string \<Rightarrow> search_panel" where
  "handleSearch lc st val =
     (let query = toLowerCase (trim val) in
      if length query = 0 then Hidden
      else
        (let results =
               take 8 (sort_cmp (compareEntries lc query)
                 (filter (matches query) (searchIndex st)))
         in if length results = 0 then NoResults val else Results results))"

fun shown :: "search_panel \<Rightarrow> entry list" where
  "shown Hidden = []"
| "shown (NoResults v) = []"
| "shown (Results rs) = rs"

section \<open>Switching the city\<close>

text \<open>
  \<open>switchCity\<close> sets the current city, clears the map features and the search box,
  assigns \<open>crimeData = {}\<close>, and calls \<open>initMap\<close>, which starts fetching the data file
  of the new city and returns. The first callback of the fetch stores each borough
  under its upper-cased name; it throws at a borough without a name, and the chain ends
  in the error message. The callback after the map features have arrived calls
  \<open>initializeSearch\<close>, which builds the index, and then \<open>buildSearchIndex\<close> again.
\<close>

definition switchCity :: "city \<Rightarrow> app_state \<Rightarrow> app_state" where
  "switchCity cityKey st = st\<lparr>currentCity := cityKey, crimeData := []\<rparr>"

fun storeBoroughs :: "borough list \<Rightarrow> borough obj \<Rightarrow> borough obj \<times> bool" where
  "storeBoroughs [] cd = (cd, True)"
| "storeBoroughs (b # bs) cd =
     (case b_name b of
        None \<Rightarrow> (cd, False)
      | Some n \<Rightarrow> storeBoroughs bs (obj_set (toUpperCase n) b cd))"

definition crimeDataLoaded :: "borough list \<Rightarrow> app_state \<Rightarrow> app_state" where
  "crimeDataLoaded boroughs st = st\<lparr>crimeData := fst (storeBoroughs boroughs (crimeData st))\<rparr>"

definition geoDataLoaded :: "app_state \<Rightarrow> app_state" where
  "geoDataLoaded st = buildSearchIndex (buildSearchIndex st)"

section \<open>Notions of the specification\<close>

text \<open>
  A collation is a comparison that decides every pair and is transitive, which is what
  a locale's \<open>localeCompare\<close> provides. Comparison by character codes is one.
\<close>

definition collation :: "(string \<Rightarrow> string \<Rightarrow> int) \<Rightarrow> bool" where
  "collation lc =
     ((\<forall>a b. lc a b \<le> 0 \<or> lc b a \<le> 0)
      \<and> (\<forall>a b c. lc a b \<le> 0 \<longrightarrow> lc b c \<le> 0 \<longrightarrow> lc a c \<le> 0))"

definition codeCompare :: "string \<Rightarrow> string \<Rightarrow> int" where
  "codeCompare a b = (if a = b then 0 else if a < b then - 1 else 1)"

text \<open>
  The three ranks in the words of the specification: an entry is a prefix match when
  its search key or one of its alias keys starts with the query; it is a borough entry
  when its kind is \<open>borough\<close>; \<open>a\<close> may stand in front of \<open>b\<close> when it wins on the
  first rank that tells them apart, the display names coming last.
\<close>

definition isPrefixMatch :: "string \<Rightarrow> entry \<Rightarrow> bool" where
  "isPrefixMatch q e =
     (startsWith (e_searchName e) q
      \<or> (\<exists>t \<in> set (case e_searchTerms e of None \<Rightarrow> [] | Some ts \<Rightarrow> ts). startsWith t q))"

definition isBorough :: "entry \<Rightarrow> bool" where
  "isBorough e = (e_type e = ''borough'')"

definition spec_precedes :: "(string \<Rightarrow> string \<Rightarrow> int) \<Rightarrow> string \<Rightarrow> entry \<Rightarrow> entry \<Rightarrow> bool" where
  "spec_precedes lc q a b =
     ((isPrefixMatch q a \<and> \<not> isPrefixMatch q b)
      \<or> (isPrefixMatch q a = isPrefixMatch q b
          \<and> ((isBorough a \<and> \<not> isBorough b)
              \<or> (isBorough a = isBorough b \<and> lc (e_name a) (e_name b) \<le> 0))))"

text \<open>
  The labels of a list in the order in which each is seen first, the crime types and
  the areas a record carries, the labels of those areas as the data file lists them,
  the count stored under a label (0 when there is none), and the total of one label as
  it is written, over the areas of a record.
\<close>

fun first_seen :: "'a list \<Rightarrow> 'a list" where
  "first_seen [] = []"
| "first_seen (x # xs) = x # filter (\<lambda>y. y \<noteq> x) (first_seen xs)"

definition areaCrimes :: "area \<Rightarrow> int obj" where
  "areaCrimes a = (case a_crimeTypes a of None \<Rightarrow> [] | Some ct \<Rightarrow> ct)"

definition boroughAreas :: "city \<Rightarrow> borough \<Rightarrow> area list" where
  "boroughAreas c b = (case areaType c b of None \<Rightarrow> [] | Some areas \<Rightarrow> areas)"

definition boroughLabels :: "city \<Rightarrow> borough \<Rightarrow> string list" where
  "boroughLabels c b = concat (map (\<lambda>a. map fst (areaCrimes a)) (boroughAreas c b))"

definition get0 :: "int obj \<Rightarrow> string \<Rightarrow> int" where
  "get0 ob t = (case map_of ob t of None \<Rightarrow> 0 | Some v \<Rightarrow> v)"

definition labelTotal :: "string \<Rightarrow> area list \<Rightarrow> int" where
  "labelTotal t areas =
     sum_list (map (\<lambda>a. sum_list (map snd (filter (\<lambda>p. fst p = t) (areaCrimes a)))) areas)"

text \<open>
  The entries one borough of the dataset gives: none when it has no name, and
  otherwise its own entry followed by the entries of its named areas in their order.
\<close>

definition spec_entries :: "city \<Rightarrow> borough \<Rightarrow> entry list" where
  "spec_entries c b =
     (if falsy_name (b_name b) then []
      else boroughEntry (the (b_name b)) b
           # map (\<lambda>a. areaEntry c (the (b_name b)) b (the (a_name a)) a)
               (filter (\<lambda>a. \<not> falsy_name (a_name a)) (boroughAreas c b)))"

section \<open>Example data\<close>

text \<open>
  A borough that carries a name and nothing else, an area that carries a name and its
  crime types, the state in which the script starts, and a complete load of a city's
  data file: the two callbacks one after the other, the second only when the first has
  not thrown.
\<close>

definition exBorough :: "string \<Rightarrow> borough" where
  "exBorough n =
     \<lparr>b_name = Some n, b_score = Undefined, b_safety_score = Undefined,
      b_totalCrimes = Undefined, b_total_crimes = Undefined, b_safety_level = None,
      b_crime_breakdown = None, b_wards = None, b_precincts = None\<rparr>"

definition exArea :: "string \<Rightarrow> int obj \<Rightarrow> area" where
  "exArea n ct = \<lparr>a_name = Some n, a_totalCrimes = Undefined, a_crimeTypes = Some ct\<rparr>"

definition initialState :: app_state where
  "initialState = \<lparr>currentCity = london, crimeData = [], searchIndex = []\<rparr>"

definition loadCity :: "borough list \<Rightarrow> app_state \<Rightarrow> app_state" where
  "loadCity boroughs st =
     (if snd (storeBoroughs boroughs (crimeData st))
      then geoDataLoaded (crimeDataLoaded boroughs st)
      else crimeDataLoaded boroughs st)"

text \<open>
  Boroughs of the first city with two wards each: the same crime type written with and
  without a space; the same with a second type in the lead; two types with equal
  counts; and a type whose label is a number.
\<close>

definition exVehicle :: borough where
  "exVehicle = (exBorough ''Camden'')
     \<lparr>b_wards := Some [exArea ''Ward A'' [(''VEHICLE OFFENCES'', 3)],
                       exArea ''Ward B'' [(''VEHICLEOFFENCES'', 2)]]\<rparr>"

definition exBurglary :: borough where
  "exBurglary = (exBorough ''Camden'')
     \<lparr>b_wards := Some [exArea ''Ward A'' [(''VEHICLE OFFENCES'', 3), (''BURGLARY'', 4)],
                       exArea ''Ward B'' [(''VEHICLEOFFENCES'', 2)]]\<rparr>"

definition exTie :: borough where
  "exTie = (exBorough ''Camden'')
     \<lparr>b_wards := Some [exArea ''Ward A'' [(''THEFT'', 2)],
                       exArea ''Ward B'' [(''ARSON'', 2), (''THEFT'', 0)]]\<rparr>"

definition exNumeric :: borough where
  "exNumeric = (exBorough ''Camden'')
     \<lparr>b_wards := Some [exArea ''Ward A'' [(''THEFT'', 2)],
                       exArea ''Ward B'' [(''7'', 2)]]\<rparr>"

section \<open>Auxiliary facts\<close>

subsection \<open>Unfolding the model on concrete data\<close>

lemmas string_defs = toLowerCase_def toUpperCase_def lowerChar_def upperChar_def trim_def
  isWhiteSpace_def startsWith_def

lemmas object_defs = Object_entries_def Object_keys_def isArrayIndex_def isDigit_def
  numericValue_def digitVal_def obj_get_def

lemmas index_defs = loadCity_def geoDataLoaded_def crimeDataLoaded_def buildSearchIndex_def
  pushBorough_def pushArea_def boroughEntry_def areaEntry_def searchTerms_def entryScore_def
  js_or_def initialState_def exBorough_def exArea_def switchCity_def

lemmas query_defs = handleSearch_def matches_def compareEntries_def exactRank_def
  typeRank_def sort_cmp_def Let_def

lemmas crime_defs = getTopCrimeType_def allCrimes_def addArea_def addCrime_def
  formatCrimeType_def crimeTypeMap_def areaCrimes_def boroughAreas_def labelTotal_def
  boroughLabels_def
  exVehicle_def exBurglary_def exTie_def exNumeric_def

subsection \<open>The stable sort\<close>

lemma set_insert_cmp: "set (insert_cmp c x xs) = insert x (set xs)"
  by (induction xs) auto

lemma set_sort_cmp: "set (sort_cmp c xs) = set xs"
  unfolding sort_cmp_def by (induction xs) (auto simp: set_insert_cmp)

lemma length_insert_cmp: "length (insert_cmp c x xs) = Suc (length xs)"
  by (induction xs) auto

lemma length_sort_cmp: "length (sort_cmp c xs) = length xs"
  unfolding sort_cmp_def by (induction xs) (auto simp: length_insert_cmp)

lemma sorted_insert_cmp:
  assumes tot: "\<And>a b. c a b \<le> 0 \<or> c b a \<le> 0"
    and tr: "\<And>a b d. c a b \<le> 0 \<Longrightarrow> c b d \<le> 0 \<Longrightarrow> c a d \<le> 0"
    and srt: "sorted_wrt (\<lambda>a b. c a b \<le> 0) xs"
  shows "sorted_wrt (\<lambda>a b. c a b \<le> 0) (insert_cmp c x xs)"
  using srt
proof (induction xs)
  case Nil
  then show ?case by simp
next
  case (Cons y ys)
  show ?case
  proof (cases "c x y \<le> 0")
    case True
    have "\<forall>z\<in>set ys. c x z \<le> 0"
      using Cons.prems True tr by auto
    with True Cons.prems show ?thesis by simp
  next
    case False
    then have yx: "c y x \<le> 0" using tot [of x y] by simp
    from Cons have "sorted_wrt (\<lambda>a b. c a b \<le> 0) (insert_cmp c x ys)" by simp
    with False yx Cons.prems show ?thesis
      by (auto simp: set_insert_cmp)
  qed
qed

lemma sorted_sort_cmp:
  assumes tot: "\<And>a b. c a b \<le> 0 \<or> c b a \<le> 0"
    and tr: "\<And>a b d. c a b \<le> 0 \<Longrightarrow> c b d \<le> 0 \<Longrightarrow> c a d \<le> 0"
  shows "sorted_wrt (\<lambda>a b. c a b \<le> 0) (sort_cmp c xs)"
  unfolding sort_cmp_def
proof (induction xs)
  case Nil
  show ?case by simp
next
  case (Cons x xs)
  show ?case using sorted_insert_cmp [OF tot tr Cons.IH] by simp
qed

lemma exactRank_prefix: "exactRank q e = (if isPrefixMatch q e then 0 else 1)"
  by (auto simp: exactRank_def isPrefixMatch_def list_ex_iff split: option.splits)

lemma typeRank_borough: "typeRank e = (if isBorough e then 0 else 1)"
  by (simp add: typeRank_def isBorough_def)

lemma compareEntries_precedes:
  "(compareEntries lc q a b \<le> 0) = spec_precedes lc q a b"
  by (simp add: compareEntries_def exactRank_prefix typeRank_borough spec_precedes_def Let_def)

lemma precedes_total:
  "collation lc \<Longrightarrow> spec_precedes lc q a b \<or> spec_precedes lc q b a"
  unfolding collation_def spec_precedes_def by blast

lemma precedes_trans:
  "collation lc \<Longrightarrow> spec_precedes lc q a b \<Longrightarrow> spec_precedes lc q b d
     \<Longrightarrow> spec_precedes lc q a d"
  unfolding collation_def spec_precedes_def by blast

lemma collation_codeCompare: "collation codeCompare"
  unfolding collation_def codeCompare_def by auto

lemma trim_whitespace: "list_all isWhiteSpace v \<Longrightarrow> trim v = []"
proof -
  assume "list_all isWhiteSpace v"
  then have d: "dropWhile isWhiteSpace v = []"
    by (induction v) auto
  show ?thesis unfolding trim_def d by simp
qed

lemma trim_Nil_iff: "(trim v = []) = list_all isWhiteSpace v"
proof
  assume t: "trim v = []"
  show "list_all isWhiteSpace v"
  proof (rule ccontr)
    assume "\<not> list_all isWhiteSpace v"
    then have ne: "dropWhile isWhiteSpace v \<noteq> []"
      by (simp add: list_all_iff dropWhile_eq_Nil_conv)
    then have "\<not> isWhiteSpace (hd (dropWhile isWhiteSpace v))"
      by (rule hd_dropWhile)
    moreover from t have "\<forall>x \<in> set (dropWhile isWhiteSpace v). isWhiteSpace x"
      by (simp add: trim_def dropWhile_eq_Nil_conv)
    ultimately show False using ne by (metis list.set_sel(1))
  qed
next
  assume "list_all isWhiteSpace v"
  then show "trim v = []" by (rule trim_whitespace)
qed

subsection \<open>Objects and aggregation\<close>

lemma keys_obj_set:
  "map fst (obj_set k v ob) = (if k \<in> set (map fst ob) then map fst ob else map fst ob @ [k])"
  by (induction ob) auto

lemma map_of_obj_set:
  "map_of (obj_set k v ob) t = (if t = k then Some v else map_of ob t)"
  by (induction ob) auto

lemma keys_addCrime:
  "map fst (addCrime kc acc)
   = (if fst kc \<in> set (map fst acc) then map fst acc else map fst acc @ [fst kc])"
  by (simp add: addCrime_def keys_obj_set)

lemma map_of_addCrime:
  "map_of (addCrime kc acc) t
   = (if t = fst kc then Some (get0 acc t + snd kc) else map_of acc t)"
  by (simp add: addCrime_def map_of_obj_set obj_get_def get0_def split: option.splits)

lemma set_first_seen: "set (first_seen xs) = set xs"
  by (induction xs) auto

lemma first_seen_append:
  "first_seen (xs @ ys) = first_seen xs @ filter (\<lambda>y. y \<notin> set xs) (first_seen ys)"
  by (induction xs) (auto intro: filter_cong)

lemma keys_fold_addCrime:
  "map fst (fold addCrime es acc)
   = map fst acc @ filter (\<lambda>k. k \<notin> set (map fst acc)) (first_seen (map fst es))"
proof (induction es arbitrary: acc)
  case Nil
  show ?case by simp
next
  case (Cons e es)
  show ?case
  proof (cases "fst e \<in> set (map fst acc)")
    case True
    then have "map fst (addCrime e acc) = map fst acc"
      by (simp add: keys_addCrime)
    with True Cons.IH [of "addCrime e acc"] show ?thesis
      by (auto intro: filter_cong)
  next
    case False
    then have "map fst (addCrime e acc) = map fst acc @ [fst e]"
      by (simp add: keys_addCrime)
    with False Cons.IH [of "addCrime e acc"] show ?thesis
      by (auto intro: filter_cong)
  qed
qed

lemma keyset_addCrime: "fst ` set (addCrime e acc) = insert (fst e) (fst ` set acc)"
proof -
  have "set (map fst (addCrime e acc)) = insert (fst e) (set (map fst acc))"
    by (auto simp: keys_addCrime)
  then show ?thesis by simp
qed

lemma get0_addCrime:
  "get0 (addCrime e acc) t = (if t = fst e then get0 acc t + snd e else get0 acc t)"
  by (simp add: get0_def map_of_addCrime)

lemma map_of_fold_addCrime:
  "map_of (fold addCrime es acc) t
   = (if t \<in> fst ` set acc \<union> fst ` set es
      then Some (get0 acc t + sum_list (map snd (filter (\<lambda>p. fst p = t) es)))
      else None)"
proof (induction es arbitrary: acc)
  case Nil
  show ?case
    by (auto simp: get0_def map_of_eq_None_iff split: option.splits)
next
  case (Cons e es)
  show ?case
    by (simp add: Cons.IH [of "addCrime e acc"] keyset_addCrime get0_addCrime)
qed


lemma set_Object_entries: "set (Object_entries ob) = set ob"
  by (auto simp: Object_entries_def)

lemma sum_insort_key:
  "sum_list (map h (insort_key f x xs)) = (h x :: int) + sum_list (map h xs)"
  by (induction xs) auto

lemma sum_sort_key: "sum_list (map h (sort_key f xs)) = (sum_list (map h xs) :: int)"
  by (induction xs) (auto simp: sum_insort_key)

lemma sum_partition:
  "sum_list (map h (filter P xs)) + sum_list (map h (filter (\<lambda>x. \<not> P x) xs))
   = (sum_list (map h xs) :: int)"
  by (induction xs) auto

lemma sum_Object_entries:
  "sum_list (map h (Object_entries ob)) = (sum_list (map h ob) :: int)"
  by (simp add: Object_entries_def sum_sort_key sum_partition)

lemma sum_filter_Object_entries:
  "sum_list (map snd (filter Q (Object_entries ob)))
   = (sum_list (map snd (filter Q ob)) :: int)"
  by (simp add: sum_list_map_filter' sum_Object_entries)

lemma Object_entries_plain:
  assumes "\<forall>k \<in> fst ` set ob. \<not> isArrayIndex k"
  shows "Object_entries ob = ob"
proof -
  have "filter (\<lambda>p. isArrayIndex (fst p)) ob = []"
    using assms by (auto simp: filter_empty_conv)
  moreover have "filter (\<lambda>p. \<not> isArrayIndex (fst p)) ob = ob"
    using assms by (auto simp: filter_id_conv)
  ultimately show ?thesis by (simp add: Object_entries_def)
qed

lemma addArea_fold: "addArea a acc = fold addCrime (Object_entries (areaCrimes a)) acc"
  by (simp add: addArea_def areaCrimes_def)

lemma keys_addArea:
  "map fst (addArea a acc)
   = map fst acc @ filter (\<lambda>k. k \<notin> set (map fst acc))
       (first_seen (map fst (Object_entries (areaCrimes a))))"
  by (simp only: addArea_fold keys_fold_addCrime)

lemma keyset_addArea:
  "fst ` set (addArea a acc) = fst ` set acc \<union> fst ` set (areaCrimes a)"
proof -
  have "set (map fst (addArea a acc))
        = set (map fst acc) \<union> set (map fst (Object_entries (areaCrimes a)))"
    unfolding keys_addArea by (auto simp: set_first_seen)
  then show ?thesis by (simp add: set_Object_entries)
qed

lemma get0_addArea:
  "get0 (addArea a acc) t
   = get0 acc t + sum_list (map snd (filter (\<lambda>p. fst p = t) (areaCrimes a)))"
proof -
  have "map_of (addArea a acc) t
        = (if t \<in> fst ` set acc \<union> fst ` set (areaCrimes a)
           then Some (get0 acc t + sum_list (map snd (filter (\<lambda>p. fst p = t) (areaCrimes a))))
           else None)"
    by (simp add: addArea_fold map_of_fold_addCrime set_Object_entries
        sum_filter_Object_entries)
  moreover have "t \<notin> fst ` set acc \<union> fst ` set (areaCrimes a)
      \<Longrightarrow> get0 acc t = 0 \<and> filter (\<lambda>p. fst p = t) (areaCrimes a) = []"
    by (force simp: get0_def filter_empty_conv dest: map_of_SomeD split: option.splits)
  ultimately show ?thesis
    by (auto simp: get0_def)
qed

lemma keys_fold_addArea:
  "map fst (fold addArea as acc)
   = map fst acc @ filter (\<lambda>k. k \<notin> set (map fst acc))
       (first_seen (concat (map (\<lambda>a. map fst (Object_entries (areaCrimes a))) as)))"
proof (induction as arbitrary: acc)
  case Nil
  show ?case by simp
next
  case (Cons a as)
  have "set (map fst (addArea a acc))
        = set (map fst acc) \<union> set (map fst (Object_entries (areaCrimes a)))"
    unfolding keys_addArea by (auto simp: set_first_seen)
  then show ?case
    by (auto simp: Cons.IH [of "addArea a acc"] keys_addArea first_seen_append
        intro: filter_cong)
qed

lemma keyset_fold_addArea:
  "fst ` set (fold addArea as acc)
   = fst ` set acc \<union> (\<Union>a \<in> set as. fst ` set (areaCrimes a))"
  by (induction as arbitrary: acc) (auto simp: keyset_addArea)

lemma get0_fold_addArea:
  "get0 (fold addArea as acc) t = get0 acc t + labelTotal t as"
  by (induction as arbitrary: acc) (auto simp: get0_addArea labelTotal_def)

lemma get0_Nil: "get0 [] t = 0"
  by (simp add: get0_def)

lemma allCrimes_fold:
  "c = london \<or> b_crime_breakdown b = None
     \<Longrightarrow> allCrimes c b = fold addArea (boroughAreas c b) []"
  by (auto simp: allCrimes_def boroughAreas_def)

lemma set_boroughLabels:
  "set (boroughLabels c b) = (\<Union>a \<in> set (boroughAreas c b). fst ` set (areaCrimes a))"
  by (auto simp: boroughLabels_def)

lemma map_of_get0:
  "map_of ob t = (if t \<in> fst ` set ob then Some (get0 ob t) else None)"
  by (auto simp: get0_def map_of_eq_None_iff split: option.splits)

lemma hd_insert_cmp:
  "hd (insert_cmp c x ys) = (if ys = [] \<or> c x (hd ys) \<le> 0 then x else hd ys)"
  by (cases ys) auto

lemma sort_cmp_Nil_iff: "(sort_cmp c xs = []) = (xs = [])"
  using length_sort_cmp [of c xs] by (metis length_0_conv)

lemma hd_sort_desc:
  fixes es :: "(string \<times> int) list"
  assumes "es \<noteq> []"
  shows "\<exists>i<length es. hd (sort_cmp (\<lambda>a b. snd b - snd a) es) = es ! i
           \<and> (\<forall>j<length es. snd (es ! j) \<le> snd (es ! i))
           \<and> (\<forall>j<i. snd (es ! j) < snd (es ! i))"
  using assms
proof (induction es)
  case Nil
  then show ?case by simp
next
  case (Cons x xs)
  let ?c = "\<lambda>a b :: string \<times> int. snd b - snd a"
  show ?case
  proof (cases "xs = []")
    case True
    then show ?thesis by (simp add: sort_cmp_def)
  next
    case False
    with Cons.IH obtain i where i: "i < length xs"
      and h: "hd (sort_cmp ?c xs) = xs ! i"
      and mx: "\<forall>j<length xs. snd (xs ! j) \<le> snd (xs ! i)"
      and fst: "\<forall>j<i. snd (xs ! j) < snd (xs ! i)"
      by blast
    have s: "sort_cmp ?c (x # xs) = insert_cmp ?c x (sort_cmp ?c xs)"
      by (simp add: sort_cmp_def)
    have ne: "sort_cmp ?c xs \<noteq> []"
      using False by (simp add: sort_cmp_Nil_iff)
    show ?thesis
    proof (cases "snd (xs ! i) \<le> snd x")
      case True
      then have "hd (sort_cmp ?c (x # xs)) = (x # xs) ! 0"
        by (simp add: s hd_insert_cmp h)
      moreover have "\<forall>j<length (x # xs). snd ((x # xs) ! j) \<le> snd ((x # xs) ! 0)"
        using True mx by (auto simp: nth_Cons split: nat.splits)
      ultimately show ?thesis by blast
    next
      case False
      then have "hd (sort_cmp ?c (x # xs)) = (x # xs) ! Suc i"
        by (simp add: s hd_insert_cmp h ne)
      moreover have "\<forall>j<length (x # xs). snd ((x # xs) ! j) \<le> snd ((x # xs) ! Suc i)"
        using False mx by (auto simp: nth_Cons split: nat.splits)
      moreover have "\<forall>j<Suc i. snd ((x # xs) ! j) < snd ((x # xs) ! Suc i)"
        using False fst by (auto simp: nth_Cons split: nat.splits)
      moreover have "Suc i < length (x # xs)" using i by simp
      ultimately show ?thesis by blast
    qed
  qed
qed


lemma getTopCrimeType_hd:
  "getTopCrimeType c b
   = (if Object_entries (allCrimes c b) = [] then ''N/A''
      else formatCrimeType
             (fst (hd (sort_cmp (\<lambda>a b. snd b - snd a) (Object_entries (allCrimes c b))))))"
proof (cases "sort_cmp (\<lambda>a b. snd b - snd a) (Object_entries (allCrimes c b))")
  case Nil
  then have "Object_entries (allCrimes c b) = []"
    by (simp add: sort_cmp_Nil_iff)
  with Nil show ?thesis by (simp add: getTopCrimeType_def)
next
  case (Cons x xs)
  then have "Object_entries (allCrimes c b) \<noteq> []"
    using sort_cmp_Nil_iff [of "\<lambda>a b. snd b - snd a" "Object_entries (allCrimes c b)"] by simp
  with Cons show ?thesis by (simp add: getTopCrimeType_def)
qed

lemma Object_entries_Nil_iff: "(Object_entries ob = []) = (ob = [])"
  using set_Object_entries [of ob] by (metis set_empty)

lemma first_seen_labels_plain:
  assumes "\<forall>a \<in> set as. \<forall>k \<in> fst ` set (areaCrimes a). \<not> isArrayIndex k"
  shows "concat (map (\<lambda>a. map fst (Object_entries (areaCrimes a))) as)
         = concat (map (\<lambda>a. map fst (areaCrimes a)) as)"
  using assms by (induction as) (simp_all add: Object_entries_plain)

subsection \<open>The search index\<close>

lemma fold_pushArea:
  "fold (pushArea c bn b) as idx
   = idx @ map (\<lambda>a. areaEntry c bn b (the (a_name a)) a)
             (filter (\<lambda>a. \<not> falsy_name (a_name a)) as)"
  by (induction as arbitrary: idx) (simp_all add: pushArea_def)

lemma pushBorough_spec: "pushBorough c kv idx = idx @ spec_entries c (snd kv)"
  by (simp add: pushBorough_def spec_entries_def boroughAreas_def fold_pushArea Let_def
      split: option.splits)

lemma fold_pushBorough:
  "fold (pushBorough c) kvs idx = idx @ concat (map (\<lambda>kv. spec_entries c (snd kv)) kvs)"
  by (induction kvs arbitrary: idx) (simp_all add: pushBorough_spec)

lemma searchIndex_buildSearchIndex:
  "searchIndex (buildSearchIndex st)
   = concat (map (\<lambda>kv. spec_entries (currentCity st) (snd kv)) (Object_entries (crimeData st)))"
  by (simp add: buildSearchIndex_def Object_keys_def fold_pushBorough Let_def)

lemma buildSearchIndex_globals:
  "currentCity (buildSearchIndex st) = currentCity st"
  "crimeData (buildSearchIndex st) = crimeData st"
  by (simp_all add: buildSearchIndex_def Let_def)

lemma buildSearchIndex_eq:
  "buildSearchIndex st
   = st\<lparr>searchIndex := concat (map (\<lambda>kv. spec_entries (currentCity st) (snd kv))
         (Object_entries (crimeData st)))\<rparr>"
  by (simp add: buildSearchIndex_def Object_keys_def fold_pushBorough Let_def)

lemma areaTypeLabel_not_borough: "toLowerCase (areaTypeLabel c) \<noteq> ''borough''"
  by (cases c) (simp_all add: string_defs)

lemma boroughs_of_spec_entries:
  "map e_name (filter isBorough (spec_entries c b))
   = (if falsy_name (b_name b) then [] else [the (b_name b)])"
  by (simp add: spec_entries_def isBorough_def boroughEntry_def areaEntry_def
      areaTypeLabel_not_borough filter_empty_conv o_def)

lemma storeBoroughs_append:
  assumes "\<forall>b \<in> set bs. b_name b \<noteq> None"
    and "distinct (map (\<lambda>b. toUpperCase (the (b_name b))) bs)"
    and "\<forall>b \<in> set bs. toUpperCase (the (b_name b)) \<notin> fst ` set cd"
  shows "storeBoroughs bs cd = (cd @ map (\<lambda>b. (toUpperCase (the (b_name b)), b)) bs, True)"
  using assms
proof (induction bs arbitrary: cd)
  case Nil
  show ?case by simp
next
  case (Cons b bs)
  from Cons.prems obtain n where n: "b_name b = Some n" by auto
  have k: "toUpperCase n \<notin> fst ` set cd" using Cons.prems n by simp
  then have "map fst (obj_set (toUpperCase n) b cd) = map fst cd @ [toUpperCase n]"
    by (simp add: keys_obj_set)
  have s: "obj_set (toUpperCase n) b cd = cd @ [(toUpperCase n, b)]"
    using k by (induction cd) auto
  have "\<forall>b' \<in> set bs. toUpperCase (the (b_name b')) \<notin> fst ` set (cd @ [(toUpperCase n, b)])"
    using Cons.prems n by (auto simp: image_iff)
  with Cons.IH [of "cd @ [(toUpperCase n, b)]"] Cons.prems
  have "storeBoroughs bs (cd @ [(toUpperCase n, b)])
        = ((cd @ [(toUpperCase n, b)]) @ map (\<lambda>b. (toUpperCase (the (b_name b)), b)) bs, True)"
    by simp
  then show ?case by (simp add: n s)
qed

lemma values_storeBoroughs:
  "snd ` set (fst (storeBoroughs bs cd)) \<subseteq> set bs \<union> snd ` set cd"
proof (induction bs arbitrary: cd)
  case Nil
  show ?case by simp
next
  case (Cons b bs)
  have v: "\<And>k. snd ` set (obj_set k b cd) \<subseteq> insert b (snd ` set cd)"
  proof -
    fix k show "snd ` set (obj_set k b cd) \<subseteq> insert b (snd ` set cd)"
      by (induction cd) auto
  qed
  show ?case
  proof (cases "b_name b")
    case None
    then show ?thesis by auto
  next
    case (Some n)
    from Cons.IH [of "obj_set (toUpperCase n) b cd"] v [of "toUpperCase n"]
    show ?thesis by (auto simp: Some)
  qed
qed

lemma concat_optional:
  "concat (map (\<lambda>x. if P x then [] else [g x]) xs) = map g (filter (\<lambda>x. \<not> P x) xs)"
  by (induction xs) simp_all

lemma borough_names_of_index:
  "map e_name (filter isBorough (concat (map (\<lambda>kv. spec_entries c (snd kv)) kvs)))
   = map (\<lambda>kv. the (b_name (snd kv))) (filter (\<lambda>kv. \<not> falsy_name (b_name (snd kv))) kvs)"
proof -
  have "map e_name (filter isBorough (concat (map (\<lambda>kv. spec_entries c (snd kv)) kvs)))
        = concat (map (\<lambda>kv. map e_name (filter isBorough (spec_entries c (snd kv)))) kvs)"
    by (simp add: filter_concat map_concat o_def)
  then show ?thesis
    by (simp add: boroughs_of_spec_entries concat_optional)
qed



lemma entries_of_index:
  assumes "e \<in> set (searchIndex (buildSearchIndex st))"
  shows "\<exists>kv \<in> set (crimeData st). e \<in> set (spec_entries (currentCity st) (snd kv))"
  using assms by (auto simp: searchIndex_buildSearchIndex set_Object_entries)

lemma spec_entry_cases:
  assumes "e \<in> set (spec_entries c b)"
  shows "e = boroughEntry (the (b_name b)) b
         \<or> (\<exists>a. e = areaEntry c (the (b_name b)) b (the (a_name a)) a)"
  using assms by (auto simp: spec_entries_def split: if_splits)




lemma toLowerCase_append: "toLowerCase (xs @ ys) = toLowerCase xs @ toLowerCase ys"
  by (simp add: toLowerCase_def)

section \<open>Safety categories\<close>

text \<open>
  C3. For every integer score the category is Very Safe up to 3, Safe above 3 and up
  to 5, Moderate above 5 and up to 7, Caution above 7 and up to 8, and High Risk above
  8. No score is rejected: 0 and -5 are Very Safe, 15 is High Risk.
\<close>

theorem getSafetyLevel_boundaries:
  "(n \<le> 3 \<longrightarrow> getSafetyLevel (Num n) = ''Very Safe'')
   \<and> (3 < n \<and> n \<le> 5 \<longrightarrow> getSafetyLevel (Num n) = ''Safe'')
   \<and> (5 < n \<and> n \<le> 7 \<longrightarrow> getSafetyLevel (Num n) = ''Moderate'')
   \<and> (7 < n \<and> n \<le> 8 \<longrightarrow> getSafetyLevel (Num n) = ''Caution'')
   \<and> (8 < n \<longrightarrow> getSafetyLevel (Num n) = ''High Risk'')
   \<and> getSafetyLevel (Num 0) = ''Very Safe''
   \<and> getSafetyLevel (Num (- 5)) = ''Very Safe''
   \<and> getSafetyLevel (Num 15) = ''High Risk''"
  by (simp add: getSafetyLevel_def)

theorem getSafetyLevel_boundaries_witness:
  "getSafetyLevel (Num 3) = ''Very Safe''
   \<and> getSafetyLevel (Num 4) = ''Safe''
   \<and> getSafetyLevel (Num 7) = ''Moderate''
   \<and> getSafetyLevel (Num 8) = ''Caution''
   \<and> getSafetyLevel (Num 9) = ''High Risk''"
  using getSafetyLevel_boundaries [of 3] getSafetyLevel_boundaries [of 4]
    getSafetyLevel_boundaries [of 7] getSafetyLevel_boundaries [of 8]
    getSafetyLevel_boundaries [of 9]
  by simp




section \<open>Ranking of search results\<close>

text \<open>
  C1. Whatever the index and the text typed, and whatever collation the locale's
  \<open>localeCompare\<close> is, the results of \<open>handleSearch\<close> are in
  the order of the three ranks: an entry whose search name or one of whose search terms
  starts with the lower-cased, trimmed query stands in front of every entry that only
  contains it; among entries alike in that, a borough entry stands in front of an area
  entry; among entries alike in both, the names ascend in the locale's comparison.
  Typing \<open>lon\<close> with the boroughs West London and Londonderry loaded lists Londonderry
  first, and typing \<open>green\<close> with the borough Greenwich and the ward Green Ward loaded
  lists Greenwich first.
\<close>

theorem handleSearch_ranking:
  assumes "collation lc"
  shows "sorted_wrt (spec_precedes lc (toLowerCase (trim v))) (shown (handleSearch lc st v))
    \<and> map e_name (shown (handleSearch lc
          (loadCity [exBorough ''West London'', exBorough ''Londonderry''] initialState)
          ''lon''))
        = [''Londonderry'', ''West London'']
    \<and> map e_name (shown (handleSearch lc
          (loadCity [(exBorough ''Lewisham'')\<lparr>b_wards := Some [exArea ''Green Ward'' []]\<rparr>,
                     exBorough ''Greenwich''] initialState)
          ''green''))
        = [''Greenwich'', ''Green Ward'']"
proof -
  let ?q = "toLowerCase (trim v)"
  have "sorted_wrt (\<lambda>a b. compareEntries lc ?q a b \<le> 0)
          (sort_cmp (compareEntries lc ?q) (filter (matches ?q) (searchIndex st)))"
    by (rule sorted_sort_cmp)
      (use assms precedes_total precedes_trans in \<open>auto simp: compareEntries_precedes\<close>)
  then have "sorted_wrt (spec_precedes lc ?q)
          (take 8 (sort_cmp (compareEntries lc ?q) (filter (matches ?q) (searchIndex st))))"
    by (simp add: compareEntries_precedes sorted_wrt_take)
  then have ranked: "sorted_wrt (spec_precedes lc ?q) (shown (handleSearch lc st v))"
    by (simp add: handleSearch_def Let_def)
  have lon: "map e_name (shown (handleSearch lc
          (loadCity [exBorough ''West London'', exBorough ''Londonderry''] initialState)
          ''lon''))
        = [''Londonderry'', ''West London'']"
    by (simp add: string_defs object_defs index_defs query_defs)
  have green: "map e_name (shown (handleSearch lc
          (loadCity [(exBorough ''Lewisham'')\<lparr>b_wards := Some [exArea ''Green Ward'' []]\<rparr>,
                     exBorough ''Greenwich''] initialState)
          ''green''))
        = [''Greenwich'', ''Green Ward'']"
    by (simp add: string_defs object_defs index_defs query_defs)
  from ranked lon green show ?thesis by blast
qed

theorem handleSearch_ranking_witness:
  "collation codeCompare
   \<and> sorted_wrt (spec_precedes codeCompare ''lon'')
       (shown (handleSearch codeCompare
          (loadCity [exBorough ''West London'', exBorough ''Londonderry''] initialState)
          ''  Lon ''))"
proof -
  have q: "toLowerCase (trim ''  Lon '') = ''lon''"
    by (simp add: string_defs)
  from handleSearch_ranking [OF collation_codeCompare,
      of "''  Lon ''" "loadCity [exBorough ''West London'', exBorough ''Londonderry''] initialState"]
  show ?thesis
    unfolding q using collation_codeCompare by blast
qed

section \<open>The empty query\<close>

text \<open>
  C8. \<open>handleSearch\<close> has a result for every index and every text, and no step of it
  can fail. The results panel is hidden exactly when the text is empty or white space
  only, and then nothing is shown. A text that no entry matches gives the message that
  nothing was found, which is a different outcome with nothing shown either. The only
  other outcome is a list of at least one and at most eight entries of the index, each
  of which matches.
\<close>

theorem handleSearch_empty_query:
  "(handleSearch lc st v = Hidden) = list_all isWhiteSpace v
   \<and> handleSearch lc st [] = Hidden
   \<and> handleSearch lc st ''   '' = Hidden
   \<and> shown Hidden = []
   \<and> (\<not> list_all isWhiteSpace v
        \<and> (\<forall>e \<in> set (searchIndex st). \<not> matches (toLowerCase (trim v)) e)
      \<longrightarrow> handleSearch lc st v = NoResults v \<and> shown (handleSearch lc st v) = [])
   \<and> (\<forall>rs. handleSearch lc st v = Results rs
      \<longrightarrow> rs \<noteq> [] \<and> length rs \<le> 8
          \<and> (\<forall>e \<in> set rs. e \<in> set (searchIndex st) \<and> matches (toLowerCase (trim v)) e))"
proof -
  define q where "q = toLowerCase (trim v)"
  define srtd where
    "srtd = sort_cmp (compareEntries lc q) (filter (matches q) (searchIndex st))"
  have q: "(q = []) = list_all isWhiteSpace v"
    by (simp add: q_def toLowerCase_def trim_Nil_iff)
  have h: "handleSearch lc st v
           = (if q = [] then Hidden
              else if take 8 srtd = [] then NoResults v else Results (take 8 srtd))"
    by (simp add: handleSearch_def Let_def q_def srtd_def)
  have sub: "set (take 8 srtd) \<subseteq> set srtd"
    by (rule set_take_subset)
  have srt: "set srtd = {e \<in> set (searchIndex st). matches q e}"
    by (simp add: srtd_def set_sort_cmp)
  have c1: "(handleSearch lc st v = Hidden) = list_all isWhiteSpace v"
    using q by (simp add: h)
  have c2: "handleSearch lc st [] = Hidden" "handleSearch lc st ''   '' = Hidden"
    by (simp_all add: handleSearch_def string_defs)
  have c3: "\<not> list_all isWhiteSpace v \<and> (\<forall>e \<in> set (searchIndex st). \<not> matches q e)
      \<longrightarrow> handleSearch lc st v = NoResults v \<and> shown (handleSearch lc st v) = []"
  proof
    assume a: "\<not> list_all isWhiteSpace v \<and> (\<forall>e \<in> set (searchIndex st). \<not> matches q e)"
    then have "filter (matches q) (searchIndex st) = []"
      by (simp add: filter_empty_conv)
    then have e: "srtd = []"
      by (simp add: srtd_def sort_cmp_def)
    from a q have n: "q \<noteq> []" by simp
    show "handleSearch lc st v = NoResults v \<and> shown (handleSearch lc st v) = []"
      unfolding h using n e by simp
  qed
  have c4: "\<forall>rs. handleSearch lc st v = Results rs
      \<longrightarrow> rs \<noteq> [] \<and> length rs \<le> 8
          \<and> (\<forall>e \<in> set rs. e \<in> set (searchIndex st) \<and> matches q e)"
  proof (intro allI impI)
    fix rs
    assume r: "handleSearch lc st v = Results rs"
    have rs: "rs = take 8 srtd \<and> take 8 srtd \<noteq> []"
    proof (cases "q = []")
      case True
      with r show ?thesis unfolding h by simp
    next
      case False
      show ?thesis
      proof (cases "take 8 srtd = []")
        case True
        with r False show ?thesis unfolding h by simp
      next
        case False
        from r \<open>q \<noteq> []\<close> False have "Results (take 8 srtd) = Results rs"
          unfolding h by (simp only: if_False)
        then have "take 8 srtd = rs"
          by (simp only: search_panel.inject)
        with False show ?thesis by blast
      qed
    qed
    have l: "length rs \<le> 8" using rs by simp
    have m: "\<forall>e \<in> set rs. e \<in> set (searchIndex st) \<and> matches q e"
    proof
      fix e assume "e \<in> set rs"
      then have "e \<in> set srtd" using rs sub by blast
      then show "e \<in> set (searchIndex st) \<and> matches q e"
        unfolding srt by simp
    qed
    from rs have ne: "rs \<noteq> []" by metis
    from ne l m show "rs \<noteq> [] \<and> length rs \<le> 8
          \<and> (\<forall>e \<in> set rs. e \<in> set (searchIndex st) \<and> matches q e)"
      by (intro conjI)
  qed
  have c5: "shown Hidden = []" by simp
  from c1 c2 c3 c4 c5 show ?thesis
    unfolding q_def by (intro conjI)
qed


theorem handleSearch_empty_query_witness:
  "handleSearch codeCompare
     (loadCity [exBorough ''West London'', exBorough ''Londonderry''] initialState) ''zz''
   = NoResults ''zz''
   \<and> handleSearch codeCompare
     (loadCity [exBorough ''West London'', exBorough ''Londonderry''] initialState) '' ''
   = Hidden
   \<and> length (shown (handleSearch codeCompare
     (loadCity [exBorough ''West London'', exBorough ''Londonderry''] initialState) ''west''))
   \<le> 8"
proof -
  let ?st = "loadCity [exBorough ''West London'', exBorough ''Londonderry''] initialState"
  have "\<not> list_all isWhiteSpace ''zz''" by (simp add: isWhiteSpace_def)
  moreover have "toLowerCase (trim ''zz'') = ''zz''" by (simp add: string_defs)
  moreover have "\<forall>e \<in> set (searchIndex ?st). \<not> matches ''zz'' e"
    by (simp add: string_defs object_defs index_defs matches_def Let_def)
  ultimately have w1: "handleSearch codeCompare ?st ''zz'' = NoResults ''zz''"
    using handleSearch_empty_query [of codeCompare ?st "''zz''"]
    by presburger
  have "list_all isWhiteSpace '' ''" by (simp add: isWhiteSpace_def)
  then have w2: "handleSearch codeCompare ?st '' '' = Hidden"
    using handleSearch_empty_query [of codeCompare ?st "'' ''"]
    by presburger
  have "\<exists>rs. handleSearch codeCompare ?st ''west'' = Results rs"
    by (simp add: string_defs object_defs index_defs query_defs)
  then obtain rs where rs: "handleSearch codeCompare ?st ''west'' = Results rs" ..
  from handleSearch_empty_query [of codeCompare ?st "''west''", THEN conjunct2, THEN conjunct2,
      THEN conjunct2, THEN conjunct2, THEN conjunct2, rule_format, OF rs]
  have "length rs \<le> 8" by (elim conjE)
  then have w3: "length (shown (handleSearch codeCompare ?st ''west'')) \<le> 8"
    by (simp add: rs)
  from w1 w2 w3 show ?thesis by (intro conjI)
qed

section \<open>Aggregation of crime types\<close>

text \<open>
  C2, as the claim states it, fails: the counts are summed under the labels as they
  are written, and \<open>formatCrimeType\<close> is applied to the winning label only. The two
  spellings of the vehicle offences have the same formatted label and stay two entries,
  of 3 and of 2; with a burglary count of 4 beside them the top type is Burglary,
  although the two spellings together count 5.
\<close>

theorem allCrimes_canonical_counterexample:
  "formatCrimeType ''VEHICLE OFFENCES'' = formatCrimeType ''VEHICLEOFFENCES''
   \<and> allCrimes london exVehicle = [(''VEHICLE OFFENCES'', 3), (''VEHICLEOFFENCES'', 2)]
   \<and> getTopCrimeType london exBurglary = ''Burglary''"
  by (simp add: crime_defs string_defs object_defs exBorough_def exArea_def sort_cmp_def)

text \<open>
  C2, amended. When the counts come from the areas (the first city, or a record without
  a \<open>crime_breakdown\<close>), the dictionary of \<open>getTopCrimeType\<close> holds, for each label
  exactly as some area writes it, the sum of the counts written under that very label,
  and nothing else. Labels that differ in case or spacing are separate entries. For a
  borough with one area contributing VEHICLE OFFENCES: 3 and another VEHICLEOFFENCES: 2
  the entries are 3 and 2, and the top type returned is Vehicle Offences.
\<close>

theorem allCrimes_raw_labels:
  assumes "c = london \<or> b_crime_breakdown b = None"
  shows "obj_get (allCrimes c b) t
         = (if t \<in> set (boroughLabels c b)
            then Some (labelTotal t (boroughAreas c b)) else None)
    \<and> obj_get (allCrimes london exVehicle) ''VEHICLE OFFENCES'' = Some 3
    \<and> obj_get (allCrimes london exVehicle) ''VEHICLEOFFENCES'' = Some 2
    \<and> getTopCrimeType london exVehicle = ''Vehicle Offences''"
proof -
  have g: "get0 (fold addArea (boroughAreas c b) []) t = labelTotal t (boroughAreas c b)"
    by (simp add: get0_fold_addArea get0_Nil)
  have "obj_get (allCrimes c b) t
         = (if t \<in> set (boroughLabels c b)
            then Some (labelTotal t (boroughAreas c b)) else None)"
    unfolding obj_get_def allCrimes_fold [OF assms]
    by (simp add: map_of_get0 [of "fold addArea (boroughAreas c b) []"] keyset_fold_addArea g
        set_boroughLabels)
  moreover have "obj_get (allCrimes london exVehicle) ''VEHICLE OFFENCES'' = Some 3"
    "obj_get (allCrimes london exVehicle) ''VEHICLEOFFENCES'' = Some 2"
    "getTopCrimeType london exVehicle = ''Vehicle Offences''"
    by (simp_all add: crime_defs string_defs object_defs exBorough_def exArea_def sort_cmp_def)
  ultimately show ?thesis by (intro conjI)
qed

theorem allCrimes_raw_labels_witness:
  "obj_get (allCrimes london exBurglary) ''VEHICLE OFFENCES'' = Some 3
   \<and> obj_get (allCrimes london exBurglary) ''Vehicle Offences'' = None"
proof -
  have h: "london = london \<or> b_crime_breakdown exBurglary = None" by simp
  have a: "boroughAreas london exBurglary
        = [exArea ''Ward A'' [(''VEHICLE OFFENCES'', 3), (''BURGLARY'', 4)],
           exArea ''Ward B'' [(''VEHICLEOFFENCES'', 2)]]"
    by (simp add: boroughAreas_def exBurglary_def exBorough_def)
  have l: "boroughLabels london exBurglary = [''VEHICLE OFFENCES'', ''BURGLARY'', ''VEHICLEOFFENCES'']"
    by (simp add: boroughLabels_def a areaCrimes_def exArea_def)
  from allCrimes_raw_labels [OF h, of "''VEHICLE OFFENCES''"]
  have "obj_get (allCrimes london exBurglary) ''VEHICLE OFFENCES'' = Some 3"
    by (simp add: a l labelTotal_def areaCrimes_def exArea_def)
  moreover from allCrimes_raw_labels [OF h, of "''Vehicle Offences''"]
  have "obj_get (allCrimes london exBurglary) ''Vehicle Offences'' = None"
    by (simp add: a l labelTotal_def areaCrimes_def exArea_def)
  ultimately show ?thesis by (intro conjI)
qed

section \<open>The top crime type\<close>

text \<open>
  C9, as the claim states it, fails for a label that is a canonical array index:
  \<open>Object.entries\<close> lists such a label in front of the others, so with THEFT seen
  first and both counts equal, the top type is the label 7.
\<close>

theorem getTopCrimeType_first_seen_counterexample:
  "first_seen (boroughLabels london exNumeric) = [''THEFT'', ''7'']
   \<and> allCrimes london exNumeric = [(''THEFT'', 2), (''7'', 2)]
   \<and> getTopCrimeType london exNumeric = ''7''"
  by (simp add: crime_defs string_defs object_defs exBorough_def exArea_def sort_cmp_def)

text \<open>
  C9, amended. A record with no crime-type entry (an empty \<open>crime_breakdown\<close> in the
  second city, or areas without crime types) has the top type N/A, and so has every
  record whose dictionary is empty. Otherwise the top type is the formatted label of
  the first entry, in the order \<open>Object.entries\<close> lists the dictionary, whose count is
  the greatest: no entry has a greater count and every entry in front of it has a
  smaller one. When the counts come from the areas and no label is a canonical array
  index, that order is the order in which the labels are seen first.
\<close>

theorem getTopCrimeType_top:
  "((c = nyc \<and> b_crime_breakdown b = Some [])
      \<or> ((c = london \<or> b_crime_breakdown b = None)
          \<and> (\<forall>a \<in> set (boroughAreas c b). areaCrimes a = []))
     \<longrightarrow> getTopCrimeType c b = ''N/A'')
   \<and> (Object_entries (allCrimes c b) = [] \<longrightarrow> getTopCrimeType c b = ''N/A'')
   \<and> (Object_entries (allCrimes c b) \<noteq> []
     \<longrightarrow> (\<exists>i < length (Object_entries (allCrimes c b)).
            getTopCrimeType c b = formatCrimeType (fst (Object_entries (allCrimes c b) ! i))
            \<and> (\<forall>j < length (Object_entries (allCrimes c b)).
                  snd (Object_entries (allCrimes c b) ! j)
                  \<le> snd (Object_entries (allCrimes c b) ! i))
            \<and> (\<forall>j < i. snd (Object_entries (allCrimes c b) ! j)
                  < snd (Object_entries (allCrimes c b) ! i))))
   \<and> ((c = london \<or> b_crime_breakdown b = None)
       \<and> (\<forall>a \<in> set (boroughAreas c b). \<forall>k \<in> fst ` set (areaCrimes a). \<not> isArrayIndex k)
     \<longrightarrow> map fst (Object_entries (allCrimes c b)) = first_seen (boroughLabels c b))"
proof -
  define es where "es = Object_entries (allCrimes c b)"
  have p2: "es = [] \<longrightarrow> getTopCrimeType c b = ''N/A''"
    by (simp add: getTopCrimeType_hd es_def)
  have p1: "(c = nyc \<and> b_crime_breakdown b = Some [])
      \<or> ((c = london \<or> b_crime_breakdown b = None)
          \<and> (\<forall>a \<in> set (boroughAreas c b). areaCrimes a = []))
     \<longrightarrow> getTopCrimeType c b = ''N/A''"
  proof
    assume a: "(c = nyc \<and> b_crime_breakdown b = Some [])
      \<or> ((c = london \<or> b_crime_breakdown b = None)
          \<and> (\<forall>a \<in> set (boroughAreas c b). areaCrimes a = []))"
    have "allCrimes c b = []"
    proof (cases "c = nyc \<and> b_crime_breakdown b = Some []")
      case True
      then show ?thesis by (simp add: allCrimes_def)
    next
      case False
      with a have fe: "(c = london \<or> b_crime_breakdown b = None)
          \<and> (\<forall>a \<in> set (boroughAreas c b). areaCrimes a = [])"
        by (elim disjE) simp_all
      then have f: "c = london \<or> b_crime_breakdown b = None" ..
      from fe have e: "\<forall>a \<in> set (boroughAreas c b). areaCrimes a = []" ..
      have "fst ` set (fold addArea (boroughAreas c b) []) = {}"
        using e by (simp add: keyset_fold_addArea)
      then show ?thesis
        by (simp add: allCrimes_fold [OF f])
    qed
    then have "es = []" by (simp add: es_def Object_entries_Nil_iff)
    with p2 show "getTopCrimeType c b = ''N/A''" by simp
  qed
  have p3: "es \<noteq> []
     \<longrightarrow> (\<exists>i < length es.
            getTopCrimeType c b = formatCrimeType (fst (es ! i))
            \<and> (\<forall>j < length es. snd (es ! j) \<le> snd (es ! i))
            \<and> (\<forall>j < i. snd (es ! j) < snd (es ! i)))"
  proof
    assume ne: "es \<noteq> []"
    from hd_sort_desc [OF ne] obtain i where "i < length es"
      and "hd (sort_cmp (\<lambda>a b. snd b - snd a) es) = es ! i"
      and "\<forall>j<length es. snd (es ! j) \<le> snd (es ! i)"
      and "\<forall>j<i. snd (es ! j) < snd (es ! i)"
      by blast
    moreover have "getTopCrimeType c b
        = formatCrimeType (fst (hd (sort_cmp (\<lambda>a b. snd b - snd a) es)))"
      using ne by (simp add: getTopCrimeType_hd es_def)
    ultimately show "\<exists>i < length es.
            getTopCrimeType c b = formatCrimeType (fst (es ! i))
            \<and> (\<forall>j < length es. snd (es ! j) \<le> snd (es ! i))
            \<and> (\<forall>j < i. snd (es ! j) < snd (es ! i))"
      by metis
  qed
  have p4: "(c = london \<or> b_crime_breakdown b = None)
       \<and> (\<forall>a \<in> set (boroughAreas c b). \<forall>k \<in> fst ` set (areaCrimes a). \<not> isArrayIndex k)
     \<longrightarrow> map fst es = first_seen (boroughLabels c b)"
  proof
    assume a: "(c = london \<or> b_crime_breakdown b = None)
       \<and> (\<forall>a \<in> set (boroughAreas c b). \<forall>k \<in> fst ` set (areaCrimes a). \<not> isArrayIndex k)"
    then have f: "c = london \<or> b_crime_breakdown b = None" ..
    from a have n: "\<forall>a \<in> set (boroughAreas c b). \<forall>k \<in> fst ` set (areaCrimes a). \<not> isArrayIndex k" ..
    have k: "map fst (allCrimes c b) = first_seen (boroughLabels c b)"
      unfolding allCrimes_fold [OF f] keys_fold_addArea boroughLabels_def
      by (simp add: first_seen_labels_plain [OF n])
    have "\<forall>k \<in> fst ` set (allCrimes c b). \<not> isArrayIndex k"
      unfolding allCrimes_fold [OF f] keyset_fold_addArea using n by auto
    then have "Object_entries (allCrimes c b) = allCrimes c b"
      by (rule Object_entries_plain)
    with k show "map fst es = first_seen (boroughLabels c b)"
      by (simp add: es_def)
  qed
  from p1 p2 p3 p4 show ?thesis
    unfolding es_def by (intro conjI)
qed

theorem getTopCrimeType_top_witness:
  "getTopCrimeType london (exBorough ''Camden'') = ''N/A''
   \<and> map fst (Object_entries (allCrimes london exTie)) = [''THEFT'', ''ARSON'']
   \<and> getTopCrimeType london exTie = ''Theft''"
proof -
  have "boroughAreas london (exBorough ''Camden'') = []"
    by (simp add: boroughAreas_def exBorough_def)
  with getTopCrimeType_top [of london "exBorough ''Camden''"]
  have w1: "getTopCrimeType london (exBorough ''Camden'') = ''N/A''"
    by simp
  have a: "boroughAreas london exTie
        = [exArea ''Ward A'' [(''THEFT'', 2)], exArea ''Ward B'' [(''ARSON'', 2), (''THEFT'', 0)]]"
    by (simp add: boroughAreas_def exTie_def exBorough_def)
  have n: "\<forall>a \<in> set (boroughAreas london exTie). \<forall>k \<in> fst ` set (areaCrimes a). \<not> isArrayIndex k"
    by (auto simp: a areaCrimes_def exArea_def isArrayIndex_def isDigit_def)
  have l: "first_seen (boroughLabels london exTie) = [''THEFT'', ''ARSON'']"
    by (simp add: boroughLabels_def a areaCrimes_def exArea_def)
  from getTopCrimeType_top [of london exTie] n l
  have w2: "map fst (Object_entries (allCrimes london exTie)) = [''THEFT'', ''ARSON'']"
    by simp
  have es: "Object_entries (allCrimes london exTie) = [(''THEFT'', 2), (''ARSON'', 2)]"
    by (simp add: crime_defs object_defs exBorough_def exArea_def)
  have ne: "Object_entries (allCrimes london exTie) \<noteq> []"
    by (simp add: es)
  from getTopCrimeType_top [of london exTie, THEN conjunct2, THEN conjunct2, THEN conjunct1,
      THEN mp, OF ne]
  obtain i where "i < length (Object_entries (allCrimes london exTie))"
    and "getTopCrimeType london exTie
         = formatCrimeType (fst (Object_entries (allCrimes london exTie) ! i))"
    and "\<forall>j < i. snd (Object_entries (allCrimes london exTie) ! j)
                    < snd (Object_entries (allCrimes london exTie) ! i)"
    by blast
  then have i: "i < 2"
    and t: "getTopCrimeType london exTie
            = formatCrimeType (fst ([(''THEFT'', 2 :: int), (''ARSON'', 2)] ! i))"
    and f: "\<forall>j < i. snd ([(''THEFT'', 2 :: int), (''ARSON'', 2)] ! j)
                    < snd ([(''THEFT'', 2 :: int), (''ARSON'', 2)] ! i)"
    unfolding es by simp_all
  have "i = 0"
  proof (rule ccontr)
    assume "i \<noteq> 0"
    with i have "i = 1" by simp
    with f [rule_format, of 0] show False by simp
  qed
  with t have w3: "getTopCrimeType london exTie = ''Theft''"
    by (simp add: formatCrimeType_def crimeTypeMap_def obj_get_def string_defs)
  from w1 w2 w3 show ?thesis by (intro conjI)
qed


section \<open>Determinism of the index build\<close>

text \<open>
  C10. The index that \<open>buildSearchIndex\<close> leaves is a function of the current city and
  the dataset alone: it is the concatenation, over the boroughs as the dataset lists
  them, of each named borough's entry followed by the entries of its named areas in
  their order. Two states that agree on the city and the dataset get the same sequence
  of entries whatever index they held before, and building a second time changes
  nothing. The borough entries carry the names of the named boroughs in the order of
  the dataset; and a dataset loaded after a city switch from boroughs with distinct
  upper-cased names, none of them a canonical array index, lists them in the order of
  the data file.
\<close>

theorem buildSearchIndex_deterministic:
  "searchIndex (buildSearchIndex st)
     = concat (map (\<lambda>kv. spec_entries (currentCity st) (snd kv)) (Object_entries (crimeData st)))
   \<and> (currentCity st = currentCity st' \<and> crimeData st = crimeData st'
        \<longrightarrow> searchIndex (buildSearchIndex st) = searchIndex (buildSearchIndex st'))
   \<and> buildSearchIndex (buildSearchIndex st) = buildSearchIndex st
   \<and> map e_name (filter isBorough (searchIndex (buildSearchIndex st)))
       = map (\<lambda>kv. the (b_name (snd kv)))
           (filter (\<lambda>kv. \<not> falsy_name (b_name (snd kv))) (Object_entries (crimeData st)))
   \<and> ((\<forall>b \<in> set bs. b_name b \<noteq> None)
        \<and> distinct (map (\<lambda>b. toUpperCase (the (b_name b))) bs)
        \<and> (\<forall>b \<in> set bs. \<not> isArrayIndex (toUpperCase (the (b_name b))))
      \<longrightarrow> map snd (Object_entries (crimeData (crimeDataLoaded bs (switchCity k st)))) = bs)"
proof -
  have p1: "searchIndex (buildSearchIndex st)
     = concat (map (\<lambda>kv. spec_entries (currentCity st) (snd kv)) (Object_entries (crimeData st)))"
    by (rule searchIndex_buildSearchIndex)
  have p2: "currentCity st = currentCity st' \<and> crimeData st = crimeData st'
        \<longrightarrow> searchIndex (buildSearchIndex st) = searchIndex (buildSearchIndex st')"
    by (simp add: searchIndex_buildSearchIndex)
  have p3: "buildSearchIndex (buildSearchIndex st) = buildSearchIndex st"
    by (simp add: buildSearchIndex_eq)
  have p4: "map e_name (filter isBorough (searchIndex (buildSearchIndex st)))
       = map (\<lambda>kv. the (b_name (snd kv)))
           (filter (\<lambda>kv. \<not> falsy_name (b_name (snd kv))) (Object_entries (crimeData st)))"
    by (simp only: searchIndex_buildSearchIndex borough_names_of_index)
  have p5: "(\<forall>b \<in> set bs. b_name b \<noteq> None)
        \<and> distinct (map (\<lambda>b. toUpperCase (the (b_name b))) bs)
        \<and> (\<forall>b \<in> set bs. \<not> isArrayIndex (toUpperCase (the (b_name b))))
      \<longrightarrow> map snd (Object_entries (crimeData (crimeDataLoaded bs (switchCity k st)))) = bs"
  proof
    assume a: "(\<forall>b \<in> set bs. b_name b \<noteq> None)
        \<and> distinct (map (\<lambda>b. toUpperCase (the (b_name b))) bs)
        \<and> (\<forall>b \<in> set bs. \<not> isArrayIndex (toUpperCase (the (b_name b))))"
    then have "storeBoroughs bs [] = ([] @ map (\<lambda>b. (toUpperCase (the (b_name b)), b)) bs, True)"
      by (intro storeBoroughs_append) simp_all
    then have cd: "crimeData (crimeDataLoaded bs (switchCity k st))
        = map (\<lambda>b. (toUpperCase (the (b_name b)), b)) bs"
      by (simp add: crimeDataLoaded_def switchCity_def)
    have "\<forall>key \<in> fst ` set (map (\<lambda>b. (toUpperCase (the (b_name b)), b)) bs). \<not> isArrayIndex key"
      using a by auto
    then have "Object_entries (map (\<lambda>b. (toUpperCase (the (b_name b)), b)) bs)
        = map (\<lambda>b. (toUpperCase (the (b_name b)), b)) bs"
      by (rule Object_entries_plain)
    then show "map snd (Object_entries (crimeData (crimeDataLoaded bs (switchCity k st)))) = bs"
      by (simp add: cd o_def)
  qed
  from p1 p2 p3 p4 p5 show ?thesis by (intro conjI)
qed

theorem buildSearchIndex_deterministic_witness:
  "searchIndex (buildSearchIndex
       ((loadCity [exBorough ''West London'', exBorough ''Londonderry''] initialState)
          \<lparr>searchIndex := []\<rparr>))
     = searchIndex (buildSearchIndex
         (loadCity [exBorough ''West London'', exBorough ''Londonderry''] initialState))
   \<and> map snd (Object_entries (crimeData (crimeDataLoaded
         [exBorough ''West London'', exBorough ''Londonderry''] (switchCity london initialState))))
     = [exBorough ''West London'', exBorough ''Londonderry'']"
proof -
  let ?bs = "[exBorough ''West London'', exBorough ''Londonderry'']"
  let ?st = "loadCity ?bs initialState"
  have "currentCity (?st\<lparr>searchIndex := []\<rparr>) = currentCity ?st
        \<and> crimeData (?st\<lparr>searchIndex := []\<rparr>) = crimeData ?st"
    by simp
  with buildSearchIndex_deterministic [of "?st\<lparr>searchIndex := []\<rparr>" ?st]
  have w1: "searchIndex (buildSearchIndex (?st\<lparr>searchIndex := []\<rparr>))
            = searchIndex (buildSearchIndex ?st)"
    by blast
  have h: "(\<forall>b \<in> set ?bs. b_name b \<noteq> None)
        \<and> distinct (map (\<lambda>b. toUpperCase (the (b_name b))) ?bs)
        \<and> (\<forall>b \<in> set ?bs. \<not> isArrayIndex (toUpperCase (the (b_name b))))"
    by (simp add: exBorough_def string_defs isArrayIndex_def isDigit_def)
  with buildSearchIndex_deterministic [of initialState initialState ?bs london]
  have w2: "map snd (Object_entries (crimeData (crimeDataLoaded ?bs (switchCity london initialState))))
            = ?bs"
    by blast
  from w1 w2 show ?thesis by (intro conjI)
qed

section \<open>The score of an index entry\<close>

text \<open>
  C7, as the claim states it, fails: a borough without a score gets an entry whose
  score is its \<open>totalCrimes\<close>, 500 here; a borough with nothing gets the score 0, as
  does a borough whose score is 0.
\<close>

theorem entry_score_counterexample:
  "map e_score (searchIndex (loadCity
      [(exBorough ''Camden'')\<lparr>b_totalCrimes := Num 500\<rparr>,
       exBorough ''Brent'',
       (exBorough ''Ealing'')\<lparr>b_score := Num 0\<rparr>] initialState))
     = [Num 500, Num 0, Num 0]"
  by (simp add: string_defs object_defs index_defs Let_def)

text \<open>
  C7, amended. Loading stores the borough records as they are, and every entry of the
  index holds in \<open>data\<close> a record of the dataset, so a missing score stays unset
  there. The \<open>score\<close> of the entry is the first of \<open>score\<close>, \<open>safety_score\<close> and
  \<open>totalCrimes\<close> that is a number other than 0, and 0 when there is none: for a
  record without \<open>score\<close> and \<open>safety_score\<close> it is \<open>totalCrimes\<close> or 0, and a
  score of 0 gives the same entry score as a missing one.
\<close>

theorem entry_score_fallback:
  "snd ` set (crimeData (crimeDataLoaded bs st)) \<subseteq> set bs \<union> snd ` set (crimeData st)
   \<and> (\<forall>e \<in> set (searchIndex (buildSearchIndex st)).
        e_data e \<in> snd ` set (crimeData st) \<and> e_score e = entryScore (e_data e))
   \<and> entryScore b
       = (if truthy (b_score b) then b_score b
          else if truthy (b_safety_score b) then b_safety_score b
          else if truthy (b_totalCrimes b) then b_totalCrimes b
          else Num 0)
   \<and> (b_score b = Undefined \<and> b_safety_score b = Undefined
        \<longrightarrow> entryScore b = (if truthy (b_totalCrimes b) then b_totalCrimes b else Num 0))
   \<and> (b_score b = Num 0 \<longrightarrow> entryScore b = entryScore (b\<lparr>b_score := Undefined\<rparr>))"
proof -
  have p1: "snd ` set (crimeData (crimeDataLoaded bs st)) \<subseteq> set bs \<union> snd ` set (crimeData st)"
    by (simp add: crimeDataLoaded_def values_storeBoroughs)
  have p2: "\<forall>e \<in> set (searchIndex (buildSearchIndex st)).
        e_data e \<in> snd ` set (crimeData st) \<and> e_score e = entryScore (e_data e)"
  proof
    fix e
    assume e: "e \<in> set (searchIndex (buildSearchIndex st))"
    from entries_of_index [OF e] obtain kv
      where kv: "kv \<in> set (crimeData st)"
        and "e \<in> set (spec_entries (currentCity st) (snd kv))" by auto
    from spec_entry_cases [OF this(2)]
    have "e_data e = snd kv \<and> e_score e = entryScore (snd kv)"
      by (auto simp: boroughEntry_def areaEntry_def)
    with kv show "e_data e \<in> snd ` set (crimeData st) \<and> e_score e = entryScore (e_data e)"
      by auto
  qed
  have p3: "entryScore b
       = (if truthy (b_score b) then b_score b
          else if truthy (b_safety_score b) then b_safety_score b
          else if truthy (b_totalCrimes b) then b_totalCrimes b
          else Num 0)"
    by (simp add: entryScore_def js_or_def)
  have p4: "b_score b = Undefined \<and> b_safety_score b = Undefined
        \<longrightarrow> entryScore b = (if truthy (b_totalCrimes b) then b_totalCrimes b else Num 0)"
    by (simp add: entryScore_def js_or_def)
  have p5: "b_score b = Num 0 \<longrightarrow> entryScore b = entryScore (b\<lparr>b_score := Undefined\<rparr>)"
    by (simp add: entryScore_def js_or_def)
  from p1 p2 p3 p4 p5 show ?thesis by (intro conjI)
qed

theorem entry_score_fallback_witness:
  "entryScore ((exBorough ''Camden'')\<lparr>b_totalCrimes := Num 500\<rparr>) = Num 500
   \<and> entryScore ((exBorough ''Ealing'')\<lparr>b_score := Num 0\<rparr>) = entryScore (exBorough ''Ealing'')
   \<and> e_score (hd (searchIndex (buildSearchIndex
        \<lparr>currentCity = london,
         crimeData = [(''CAMDEN'', (exBorough ''Camden'')\<lparr>b_totalCrimes := Num 500\<rparr>)],
         searchIndex = []\<rparr>)))
     = entryScore ((exBorough ''Camden'')\<lparr>b_totalCrimes := Num 500\<rparr>)"
proof -
  let ?b = "(exBorough ''Camden'')\<lparr>b_totalCrimes := Num 500\<rparr>"
  let ?st = "\<lparr>currentCity = london, crimeData = [(''CAMDEN'', ?b)], searchIndex = []\<rparr>"
  have u: "b_score ?b = Undefined \<and> b_safety_score ?b = Undefined"
    by (simp add: exBorough_def)
  from entry_score_fallback [of "[]" ?st ?b, THEN conjunct2, THEN conjunct2, THEN conjunct2,
      THEN conjunct1, THEN mp, OF u]
  have w1: "entryScore ?b = Num 500"
    by (simp add: exBorough_def)
  have z: "b_score ((exBorough ''Ealing'')\<lparr>b_score := Num 0\<rparr>) = Num 0" by simp
  from entry_score_fallback [of "[]" ?st "(exBorough ''Ealing'')\<lparr>b_score := Num 0\<rparr>",
      THEN conjunct2, THEN conjunct2, THEN conjunct2, THEN conjunct2, THEN mp, OF z]
  have w2: "entryScore ((exBorough ''Ealing'')\<lparr>b_score := Num 0\<rparr>) = entryScore (exBorough ''Ealing'')"
    by (simp add: exBorough_def)
  have d: "map e_data (searchIndex (buildSearchIndex ?st)) = [?b]"
    by (simp add: string_defs object_defs index_defs Let_def)
  then have m: "hd (searchIndex (buildSearchIndex ?st)) \<in> set (searchIndex (buildSearchIndex ?st))"
    and hd: "e_data (hd (searchIndex (buildSearchIndex ?st))) = ?b"
    by (auto simp: hd_map [symmetric] simp del: hd_map)
  from entry_score_fallback [of "[]" ?st ?b, THEN conjunct2, THEN conjunct1, rule_format, OF m]
  have w3: "e_score (hd (searchIndex (buildSearchIndex ?st))) = entryScore ?b"
    by (simp add: hd)
  from w1 w2 w3 show ?thesis by (intro conjI)
qed

section \<open>Search terms of an area\<close>




section \<open>The index after a city switch\<close>

text \<open>
  C6. \<open>switchCity\<close> empties the dataset and leaves the index as it was until the new
  data have arrived. With Camden loaded in the first city and the city switched to the
  second, the dataset is empty, and typing \<open>cam\<close> before the new data arrive still
  lists Camden.
\<close>

theorem switchCity_stale_index:
  "crimeData (switchCity nyc (loadCity [exBorough ''Camden''] initialState)) = []
   \<and> currentCity (switchCity nyc (loadCity [exBorough ''Camden''] initialState)) = nyc
   \<and> map e_name (shown (handleSearch lc
        (switchCity nyc (loadCity [exBorough ''Camden''] initialState)) ''cam''))
     = [''Camden'']"
  by (simp add: string_defs object_defs index_defs query_defs)

end
